theory Spec2Isabelle
  imports Complex_Main "HOL-Library.Sublist"
begin

section \<open>Data model of rock\_paper\_scissors.py\<close>

text \<open>
  The dataclass \<open>JointValues\<close> and the enum \<open>Guestures\<close>. The three float fields are
  modelled as reals; the only float values of the program are the literals of the pose
  table, the delays and the lift height.
\<close>

record JointValues =
  gripper :: real
  wrist_yaw :: real
  wrist_roll :: real

datatype Guestures = RESET | ROCK | PAPER | SCISSORS

text \<open>
  Exceptions. \<open>ClickException\<close> and \<open>KeyboardInterrupt\<close> are the two that \<open>play\<close>
  handles; \<open>KeyError\<close>, \<open>IndexError\<close> and \<open>AttributeError\<close> are what Python raises for a
  missing dict key, an empty sequence and an unset attribute; \<open>Fault\<close> stands for any
  other exception that a collaborator (robot driver, speech client, operating system)
  raises.
\<close>

datatype exn =
    ClickException string
  | KeyboardInterrupt
  | KeyError
  | IndexError
  | AttributeError
  | Fault string

text \<open>
  Every call that leaves the program is an event. The trace of a run is the list of
  the calls it made, in order; a call that raised is still in the trace, as the last
  call of the block it aborted.
\<close>

datatype event =
    Popen "string list"
  | Sleep real
  | RclpyInit
  | NodeCreate string
  | SoundClientCreate
  | RobotCreate
  | RobotStartup
  | GetJoint string
  | RobotStop
  | RclpyShutdown
  | Getpgid
  | Killpg
  | Say string
  | Echo string
  | LiftMoveBy real
  | LiftMoveTo real
  | JointMoveTo string real
  | PushCommand
  | WaitCommand
  | ThreadStart string
  | ThreadJoin string
  | RandomChoice "string list"
  | Prompt string

text \<open>
  The collaborators. Each answer may depend on all the calls made so far:
  \<open>faults\<close> says whether a call raises instead of returning, \<open>randbelow\<close> is the raw
  draw of the random generator, \<open>lift_pos\<close> is what \<open>robot.lift.status['pos']\<close> reads,
  \<open>startup_ok\<close> is the value of \<open>robot.startup()\<close>, \<open>prompted\<close> is what
  \<open>click.prompt\<close> returns.
\<close>

record world =
  faults :: "event list \<Rightarrow> event \<Rightarrow> exn option"
  randbelow :: "event list \<Rightarrow> nat"
  lift_pos :: "event list \<Rightarrow> real"
  startup_ok :: "event list \<Rightarrow> bool"
  prompted :: "event list \<Rightarrow> string"

text \<open>
  The state of a run: the calls of the main thread, the speech threads started so far
  (each with the calls it made and the exception that ended it, if any), and which of
  the attributes \<open>robot\<close>, \<open>wrist_yaw\<close>, \<open>wrist_roll\<close> of the game object are set.
\<close>

record state =
  trace :: "event list"
  threads :: "(event list \<times> exn option) list"
  robot :: bool
  wrist_yaw_joint :: bool
  wrist_roll_joint :: bool

definition init_state :: state where
  "init_state = \<lparr>trace = [], threads = [], robot = False,
     wrist_yaw_joint = False, wrist_roll_joint = False\<rparr>"

section \<open>Control flow: state, exceptions, loops\<close>

type_synonym 'a m = "state \<Rightarrow> (exn + 'a) \<times> state"

definition ret :: "'a \<Rightarrow> 'a m" where
  "ret x = (\<lambda>s. (Inr x, s))"

definition raise :: "exn \<Rightarrow> 'a m" where
  "raise x = (\<lambda>s. (Inl x, s))"

definition bnd :: "'a m \<Rightarrow> ('a \<Rightarrow> 'b m) \<Rightarrow> 'b m" where
  "bnd c f = (\<lambda>s. case c s of (Inl x, s') \<Rightarrow> (Inl x, s') | (Inr v, s') \<Rightarrow> f v s')"

fun block :: "unit m list \<Rightarrow> unit m" where
  "block [] = ret ()"
| "block (c # cs) = bnd c (\<lambda>_. block cs)"

fun for_each :: "'a list \<Rightarrow> ('a \<Rightarrow> unit m) \<Rightarrow> unit m" where
  "for_each [] body = ret ()"
| "for_each (x # xs) body = bnd (body x) (\<lambda>_. for_each xs body)"

definition act :: "world \<Rightarrow> event \<Rightarrow> unit m" where
  "act w e = (\<lambda>s. (case faults w (trace s) e of None \<Rightarrow> Inr () | Some x \<Rightarrow> Inl x,
                    s\<lparr>trace := trace s @ [e]\<rparr>))"

definition getattr :: "(state \<Rightarrow> bool) \<Rightarrow> unit m" where
  "getattr f = (\<lambda>s. if f s then (Inr (), s) else (Inl AttributeError, s))"

definition try_except :: "unit m \<Rightarrow> (exn \<Rightarrow> unit m option) \<Rightarrow> unit m" where
  "try_except c h = (\<lambda>s. case c s of
       (Inr v, s') \<Rightarrow> (Inr v, s')
     | (Inl x, s') \<Rightarrow> (case h x of None \<Rightarrow> (Inl x, s') | Some k \<Rightarrow> k s'))"

definition try_finally :: "unit m \<Rightarrow> unit m \<Rightarrow> unit m" where
  "try_finally c fin = (\<lambda>s. case c s of (r, s') \<Rightarrow>
       (case fin s' of (Inl x, s'') \<Rightarrow> (Inl x, s'') | (Inr _, s'') \<Rightarrow> (r, s'')))"

section \<open>Strings\<close>

definition newline :: string where
  "newline = [CHR 0x0A]"

fun upper_char :: "char \<Rightarrow> char" where
  "upper_char c =
     (case map_of (zip ''abcdefghijklmnopqrstuvwxyz'' ''ABCDEFGHIJKLMNOPQRSTUVWXYZ'') c of
        None \<Rightarrow> c | Some C \<Rightarrow> C)"

definition upper :: "string \<Rightarrow> string" where
  "upper s = map upper_char s"

fun str_nat :: "nat \<Rightarrow> string" where
  "str_nat n = (if n < 10 then [''0123456789'' ! n]
                else str_nat (n div 10) @ [''0123456789'' ! (n mod 10)])"

definition str_int :: "int \<Rightarrow> string" where
  "str_int i = (if i < 0 then CHR ''-'' # str_nat (nat (- i)) else str_nat (nat i))"

section \<open>Guestures\<close>

definition gestures :: "(Guestures \<times> JointValues) list" where
  "gestures =
     [(RESET, \<lparr>gripper = 100.0, wrist_yaw = 0.0, wrist_roll = 0.0\<rparr>),
      (ROCK, \<lparr>gripper = 0.0, wrist_yaw = 0.0, wrist_roll = 0.0\<rparr>),
      (PAPER, \<lparr>gripper = 0.0, wrist_yaw = 1.57, wrist_roll = 0.0\<rparr>),
      (SCISSORS, \<lparr>gripper = 100.0, wrist_yaw = 0.0, wrist_roll = 1.57\<rparr>)]"

definition get_joint_values :: "Guestures \<Rightarrow> exn + JointValues" where
  "get_joint_values g = (case map_of gestures g of None \<Rightarrow> Inl KeyError | Some jv \<Rightarrow> Inr jv)"

text \<open>\<open>Guestures[name]\<close>: the member of that name, or KeyError.\<close>

definition Guestures_by_name :: "string \<Rightarrow> exn + Guestures" where
  "Guestures_by_name name =
     (case map_of [(''RESET'', RESET), (''ROCK'', ROCK), (''PAPER'', PAPER),
                   (''SCISSORS'', SCISSORS)] name of
        None \<Rightarrow> Inl KeyError | Some g \<Rightarrow> Inr g)"

definition lift :: "exn + 'a \<Rightarrow> 'a m" where
  "lift r = (\<lambda>s. (r, s))"

section \<open>RockPaperScissors\<close>

definition valid_moves :: "string list" where
  "valid_moves = [''rock'', ''paper'', ''scissors'']"

definition RockPaperScissors_init :: "world \<Rightarrow> unit m" where
  "RockPaperScissors_init w =
     block [act w RclpyInit, act w (NodeCreate ''rps_game''), act w SoundClientCreate,
            act w (Sleep 1)]"

definition set_robot :: "unit m" where
  "set_robot = (\<lambda>s. (Inr (), s\<lparr>robot := True\<rparr>))"

definition set_wrist_yaw :: "unit m" where
  "set_wrist_yaw = (\<lambda>s. (Inr (), s\<lparr>wrist_yaw_joint := True\<rparr>))"

definition set_wrist_roll :: "unit m" where
  "set_wrist_roll = (\<lambda>s. (Inr (), s\<lparr>wrist_roll_joint := True\<rparr>))"

definition startup :: "world \<Rightarrow> bool m" where
  "startup w = bnd (act w RobotStartup) (\<lambda>_ s. (Inr (startup_ok w (trace s)), s))"

definition init_robot :: "world \<Rightarrow> unit m" where
  "init_robot w =
     block [act w RobotCreate, set_robot,
            bnd (startup w) (\<lambda>ok.
              if \<not> ok then raise (ClickException ''Failed to initialize the robot'')
              else ret ()),
            getattr robot, act w (GetJoint ''wrist_yaw''), set_wrist_yaw,
            getattr robot, act w (GetJoint ''wrist_roll''), set_wrist_roll]"

definition cleanup :: "world \<Rightarrow> unit m" where
  "cleanup w = block [getattr robot, getattr robot, act w RobotStop, act w RclpyShutdown]"

definition speak :: "world \<Rightarrow> string \<Rightarrow> unit m" where
  "speak w text = block [act w (Say text), act w (Sleep (real (length text) * 0.1))]"

text \<open>
  \<open>threading.Thread(target=self.speak, args=(word,)).start()\<close>: the thread runs
  \<open>speak word\<close> on a trace of its own, beside the main thread; an exception that ends
  it stays in the thread. The calls of the thread are ordered against the main thread
  only by \<open>ThreadStart\<close> before and \<open>ThreadJoin\<close> after.
\<close>

definition run_thread :: "unit m \<Rightarrow> state \<Rightarrow> event list \<times> exn option" where
  "run_thread target s =
     (case target (s\<lparr>trace := []\<rparr>) of (r, t) \<Rightarrow>
        (trace t, case r of Inl x \<Rightarrow> Some x | Inr _ \<Rightarrow> None))"

definition thread_start :: "world \<Rightarrow> string \<Rightarrow> unit m" where
  "thread_start w word =
     bnd (act w (ThreadStart word)) (\<lambda>_ s.
       (Inr (), s\<lparr>threads := threads s @ [run_thread (speak w word) s]\<rparr>))"

definition move_arm_animation :: "world \<Rightarrow> string \<Rightarrow> unit m" where
  "move_arm_animation w word =
     bnd (getattr robot) (\<lambda>_ s0.
       (let current_height = lift_pos w (trace s0); up_distance = 0.1 in
        block [getattr robot, act w (LiftMoveBy up_distance),
               getattr robot, act w PushCommand,
               thread_start w word,
               act w (Sleep 0.5),
               getattr robot, act w (LiftMoveTo current_height),
               getattr robot, act w PushCommand,
               act w (Sleep 0.5),
               act w (ThreadJoin word)]) s0)"

definition make_gesture :: "world \<Rightarrow> Guestures \<Rightarrow> unit m" where
  "make_gesture w gesture =
     bnd (lift (get_joint_values gesture)) (\<lambda>joint_values.
       block [getattr wrist_yaw_joint,
              act w (JointMoveTo ''wrist_yaw'' (wrist_yaw joint_values)),
              getattr wrist_roll_joint,
              act w (JointMoveTo ''wrist_roll'' (wrist_roll joint_values)),
              getattr robot, act w PushCommand,
              act w (Sleep 1),
              getattr robot,
              act w (JointMoveTo ''stretch_gripper'' (gripper joint_values)),
              getattr robot, act w PushCommand,
              act w (Sleep 1)])"

definition determine_winner :: "string \<Rightarrow> string \<Rightarrow> string" where
  "determine_winner stretch_choice player_choice =
     (if stretch_choice = player_choice then ''It's a tie!''
      else if (stretch_choice = ''rock'' \<and> player_choice = ''scissors'') \<or>
              (stretch_choice = ''paper'' \<and> player_choice = ''rock'') \<or>
              (stretch_choice = ''scissors'' \<and> player_choice = ''paper'')
      then ''Stretch wins!''
      else ''You win!'')"

text \<open>
  \<open>random.choice(seq)\<close> raises IndexError on an empty sequence and otherwise returns
  the element at a draw below \<open>len(seq)\<close>; the raw draw of the world is reduced to
  that range.
\<close>

definition random_choice :: "world \<Rightarrow> string list \<Rightarrow> string m" where
  "random_choice w seq =
     bnd (act w (RandomChoice seq)) (\<lambda>_ s.
       if seq = [] then (Inl IndexError, s)
       else (Inr (seq ! (randbelow w (trace s) mod length seq)), s))"

text \<open>
  \<open>click.echo(message, nl)\<close> writes the message, and a newline unless \<open>nl=False\<close>.
  The colour attributes of \<open>click.style\<close> do not change the text and are left out.
\<close>

definition echo :: "world \<Rightarrow> string \<Rightarrow> bool \<Rightarrow> unit m" where
  "echo w message nl = act w (Echo (if nl then message @ newline else message))"

definition countdown :: "world \<Rightarrow> string list \<Rightarrow> unit m" where
  "countdown w words =
     for_each words (\<lambda>word. block [echo w (word @ ''...'') False, move_arm_animation w word])"

definition play_round :: "world \<Rightarrow> string m" where
  "play_round w =
     bnd (random_choice w valid_moves) (\<lambda>stretch_choice.
     bnd (block [speak w ''Let's play!'',
                 echo w (newline @ ''Get ready...'') True,
                 act w (Sleep 1),
                 countdown w [''Rock'', ''Paper'', ''Scissors''],
                 speak w ''Shoot!'',
                 echo w (''Shoot!'' @ newline) True,
                 bnd (lift (Guestures_by_name (upper stretch_choice))) (make_gesture w),
                 echo w (''stretch played: '' @ stretch_choice) True,
                 speak w (''I choose '' @ stretch_choice)])
         (\<lambda>_. ret stretch_choice))"

section \<open>The play command\<close>

definition prompt :: "world \<Rightarrow> string m" where
  "prompt w = bnd (act w (Prompt ''What did you play'')) (\<lambda>_ s. (Inr (prompted w (trace s)), s))"

definition play_cycle :: "world \<Rightarrow> int \<Rightarrow> int \<Rightarrow> unit m" where
  "play_cycle w rounds round_num =
     block [getattr robot, act w (LiftMoveTo 0.5),
            getattr robot, act w PushCommand,
            getattr robot, act w WaitCommand,
            make_gesture w RESET,
            if rounds > 1
            then block [echo w (newline @ ''Round '' @ str_int round_num) True,
                        speak w (''Round '' @ str_int round_num)]
            else ret (),
            bnd (play_round w) (\<lambda>stretch_choice.
            bnd (prompt w) (\<lambda>player_choice.
              (let result = determine_winner stretch_choice player_choice in
               block [echo w (newline @ result) True, speak w result])))]"

definition session :: "world \<Rightarrow> int \<Rightarrow> unit m" where
  "session w rounds =
     block [init_robot w,
            speak w ''Hello! I'm ready to play Rock Paper Scissors!'',
            for_each [1..rounds] (play_cycle w rounds),
            if rounds > 1 then speak w ''Thanks for playing!'' else ret ()]"

fun handlers :: "world \<Rightarrow> exn \<Rightarrow> unit m option" where
  "handlers w (ClickException e) = Some (echo w (''Error: '' @ e) True)"
| "handlers w KeyboardInterrupt =
     Some (block [echo w (newline @ ''Game interrupted by user'') True,
                  speak w ''Game interrupted. Goodbye!''])"
| "handlers w _ = None"

definition teardown :: "world \<Rightarrow> unit m" where
  "teardown w = block [cleanup w, act w Getpgid, act w Killpg]"

definition play :: "world \<Rightarrow> int \<Rightarrow> unit m" where
  "play w rounds =
     block [act w (Popen [''ros2'', ''run'', ''sound_play'', ''soundplay_node.py'']),
            act w (Sleep 2),
            RockPaperScissors_init w,
            try_finally (try_except (session w rounds) (handlers w)) (teardown w)]"

section \<open>Traces that the claims are stated with\<close>

text \<open>
  \<open>ok_events w tr es\<close>: none of the calls \<open>es\<close>, made one after the other from the
  history \<open>tr\<close>, raises. A world is fault free when no call ever raises.
\<close>

fun ok_events :: "world \<Rightarrow> event list \<Rightarrow> event list \<Rightarrow> bool" where
  "ok_events w tr [] = True"
| "ok_events w tr (e # es) = (faults w tr e = None \<and> ok_events w (tr @ [e]) es)"

definition fault_free :: "world \<Rightarrow> bool" where
  "fault_free w = (\<forall>tr e. faults w tr e = None)"

definition speak_events :: "string \<Rightarrow> event list" where
  "speak_events text = [Say text, Sleep (real (length text) * 0.1)]"

definition gesture_events :: "JointValues \<Rightarrow> event list" where
  "gesture_events jv =
     [JointMoveTo ''wrist_yaw'' (wrist_yaw jv), JointMoveTo ''wrist_roll'' (wrist_roll jv),
      PushCommand, Sleep 1,
      JointMoveTo ''stretch_gripper'' (gripper jv), PushCommand, Sleep 1]"

definition bob_events :: "string \<Rightarrow> real \<Rightarrow> event list" where
  "bob_events word h =
     [LiftMoveBy 0.1, PushCommand, ThreadStart word, Sleep 0.5,
      LiftMoveTo h, PushCommand, Sleep 0.5, ThreadJoin word]"

definition word_events :: "string \<Rightarrow> real \<Rightarrow> event list" where
  "word_events word h = Echo (word @ ''...'') # bob_events word h"

definition round_events :: "string \<Rightarrow> JointValues \<Rightarrow> real list \<Rightarrow> event list" where
  "round_events mv jv hs =
     [RandomChoice valid_moves] @ speak_events ''Let's play!'' @
     [Echo (newline @ ''Get ready...'' @ newline), Sleep 1] @
     concat (map2 word_events [''Rock'', ''Paper'', ''Scissors''] hs) @
     speak_events ''Shoot!'' @ [Echo (''Shoot!'' @ newline @ newline)] @
     gesture_events jv @
     [Echo (''stretch played: '' @ mv @ newline)] @ speak_events (''I choose '' @ mv)"

definition reset_events :: "event list" where
  "reset_events =
     [LiftMoveTo 0.5, PushCommand, WaitCommand] @
     gesture_events \<lparr>gripper = 100, wrist_yaw = 0, wrist_roll = 0\<rparr>"

definition cycle_events ::
  "int \<Rightarrow> int \<Rightarrow> string \<times> JointValues \<times> real list \<times> string \<Rightarrow> event list" where
  "cycle_events rounds n x =
     (case x of (mv, jv, hs, pc) \<Rightarrow>
        reset_events @
        (if rounds > 1
         then Echo (newline @ ''Round '' @ str_int n @ newline) #
              speak_events (''Round '' @ str_int n)
         else []) @
        round_events mv jv hs @
        [Prompt ''What did you play'', Echo (newline @ determine_winner mv pc @ newline)] @
        speak_events (determine_winner mv pc))"

definition game_events :: "event list" where
  "game_events =
     [Popen [''ros2'', ''run'', ''sound_play'', ''soundplay_node.py''], Sleep 2,
      RclpyInit, NodeCreate ''rps_game'', SoundClientCreate, Sleep 1]"

definition robot_events :: "event list" where
  "robot_events = [RobotCreate, RobotStartup, GetJoint ''wrist_yaw'', GetJoint ''wrist_roll'']"

definition teardown_events :: "event list" where
  "teardown_events = [RobotStop, RclpyShutdown, Getpgid, Killpg]"

definition is_teardown :: "event \<Rightarrow> bool" where
  "is_teardown e = (e \<in> set teardown_events)"

fun is_farewell :: "event \<Rightarrow> bool" where
  "is_farewell (Echo t) = True"
| "is_farewell (Say t) = True"
| "is_farewell (Sleep d) = True"
| "is_farewell e = False"

text \<open>
  \<open>emits w Q c\<close>: whatever the state, the computation \<open>c\<close> only appends calls to the
  trace, every appended call satisfies \<open>Q\<close>, none of them raised except possibly the
  last one of a run that ends in an exception, and the attribute \<open>robot\<close> stays set.
\<close>

definition emits :: "world \<Rightarrow> (event \<Rightarrow> bool) \<Rightarrow> 'a m \<Rightarrow> bool" where
  "emits w Q c =
     (\<forall>s. \<exists>ev. trace (snd (c s)) = trace s @ ev \<and> list_all Q ev \<and>
            (robot s \<longrightarrow> robot (snd (c s))) \<and>
            ok_events w (trace s) (case fst (c s) of Inr _ \<Rightarrow> ev | Inl _ \<Rightarrow> butlast ev))"

text \<open>
  What the collaborators answer in a fault-free round, as functions of the history:
  the lift heights read at the start of each bob of a countdown, the move drawn, the pose
  of that move, and with them the data of each cycle of a session.
\<close>

fun countdown_heights :: "world \<Rightarrow> event list \<Rightarrow> string list \<Rightarrow> real list" where
  "countdown_heights w tr [] = []"
| "countdown_heights w tr (word # words) =
     (let h = lift_pos w (tr @ [Echo (word @ ''...'')])
      in h # countdown_heights w (tr @ word_events word h) words)"

definition round_move :: "world \<Rightarrow> event list \<Rightarrow> string" where
  "round_move w tr =
     valid_moves ! (randbelow w (tr @ [RandomChoice valid_moves]) mod length valid_moves)"

definition move_pose :: "string \<Rightarrow> JointValues" where
  "move_pose mv =
     (if mv = ''rock'' then \<lparr>gripper = 0, wrist_yaw = 0, wrist_roll = 0\<rparr>
      else if mv = ''paper'' then \<lparr>gripper = 0, wrist_yaw = 1.57, wrist_roll = 0\<rparr>
      else \<lparr>gripper = 100, wrist_yaw = 0, wrist_roll = 1.57\<rparr>)"

definition round_heights :: "world \<Rightarrow> event list \<Rightarrow> real list" where
  "round_heights w tr =
     countdown_heights w
       (tr @ [RandomChoice valid_moves] @ speak_events ''Let's play!'' @
        [Echo (newline @ ''Get ready...'' @ newline), Sleep 1])
       [''Rock'', ''Paper'', ''Scissors'']"

definition round_threads :: "(event list \<times> exn option) list" where
  "round_threads = map (\<lambda>word. (speak_events word, None)) [''Rock'', ''Paper'', ''Scissors'']"

definition cycle_data ::
  "world \<Rightarrow> int \<Rightarrow> int \<Rightarrow> event list \<Rightarrow> string \<times> JointValues \<times> real list \<times> string" where
  "cycle_data w rounds n tr =
     (let tr1 = tr @ reset_events @
                (if rounds > 1
                 then Echo (newline @ ''Round '' @ str_int n @ newline) #
                      speak_events (''Round '' @ str_int n)
                 else []);
          mv = round_move w tr1;
          hs = round_heights w tr1
      in (mv, move_pose mv, hs,
          prompted w (tr1 @ round_events mv (move_pose mv) hs @ [Prompt ''What did you play''])))"

fun session_data ::
  "world \<Rightarrow> int \<Rightarrow> event list \<Rightarrow> int list \<Rightarrow> (string \<times> JointValues \<times> real list \<times> string) list" where
  "session_data w rounds tr [] = []"
| "session_data w rounds tr (n # ns) =
     (let x = cycle_data w rounds n tr
      in x # session_data w rounds (tr @ cycle_events rounds n x) ns)"

fun thread_event :: "event \<Rightarrow> bool" where
  "thread_event (ThreadStart word) = True"
| "thread_event (ThreadJoin word) = True"
| "thread_event e = False"

text \<open>
  \<open>random.choice(seq)\<close> returns \<open>seq[randbelow(len(seq))]\<close>, where the generator draws
  each index below \<open>len(seq)\<close> with the same probability \<open>1 / len(seq)\<close>.
  \<open>with_draw w k\<close> is the world \<open>w\<close> in which the generator draws \<open>k\<close>, and
  \<open>move_probability w s mv\<close> is the probability that a round started in state \<open>s\<close>
  returns the move \<open>mv\<close>: the sum of the probabilities of the draws for which it does.
\<close>

definition with_draw :: "world \<Rightarrow> nat \<Rightarrow> world" where
  "with_draw w k = w\<lparr>randbelow := (\<lambda>tr. k)\<rparr>"

definition move_probability :: "world \<Rightarrow> state \<Rightarrow> string \<Rightarrow> real" where
  "move_probability w s mv =
     sum_list (map (\<lambda>k. if fst (play_round (with_draw w k) s) = Inr mv
                         then 1 / real (length valid_moves) else 0)
                   [0..<length valid_moves])"

text \<open>
  Concrete inputs: a world in which nothing fails, the draw is 1 (paper), the lift reads
  0.5 and the opponent answers rock; and a state in which the robot is initialised.
\<close>

definition calm_world :: world where
  "calm_world = \<lparr>faults = (\<lambda>tr e. None), randbelow = (\<lambda>tr. 1), lift_pos = (\<lambda>tr. 0.5),
     startup_ok = (\<lambda>tr. True), prompted = (\<lambda>tr. ''rock'')\<rparr>"

definition ready_state :: state where
  "ready_state = \<lparr>trace = [], threads = [], robot = True,
     wrist_yaw_joint = True, wrist_roll_joint = True\<rparr>"

text \<open>
  Three worlds in which one call fails: the speech collaborator is unavailable, so every
  \<open>say\<close> raises; the user interrupts the two seconds' sleep that follows the start of the
  speech process; the gripper command of a closed-gripper pose (gripper 0) raises an
  actuator fault.
\<close>

definition mute_world :: world where
  "mute_world = calm_world\<lparr>faults := (\<lambda>tr e. case e of Say t \<Rightarrow> Some (Fault ''speech'') | _ \<Rightarrow> None)\<rparr>"

definition cancel_world :: world where
  "cancel_world = calm_world\<lparr>faults := (\<lambda>tr e. if e = Sleep 2 then Some KeyboardInterrupt else None)\<rparr>"

definition jammed_world :: world where
  "jammed_world = calm_world\<lparr>faults := (\<lambda>tr e.
     if e = JointMoveTo ''stretch_gripper'' 0 then Some (Fault ''actuator'') else None)\<rparr>"

section \<open>Basic facts\<close>

lemma ret_apply: "ret x s = (Inr x, s)" by (simp add: ret_def)

lemma raise_apply: "raise x s = (Inl x, s)" by (simp add: raise_def)

lemma lift_apply: "lift r s = (r, s)" by (simp add: lift_def)

lemma bnd_Inr: "c s = (Inr v, s') \<Longrightarrow> bnd c f s = f v s'" by (simp add: bnd_def)

lemma bnd_Inl: "c s = (Inl x, s') \<Longrightarrow> bnd c f s = (Inl x, s')" by (simp add: bnd_def)

lemma act_ok: "faults w (trace s) e = None \<Longrightarrow> act w e s = (Inr (), s\<lparr>trace := trace s @ [e]\<rparr>)"
  by (simp add: act_def)

lemma act_raise: "faults w (trace s) e = Some x \<Longrightarrow> act w e s = (Inl x, s\<lparr>trace := trace s @ [e]\<rparr>)"
  by (simp add: act_def)

lemma getattr_ok: "f s \<Longrightarrow> getattr f s = (Inr (), s)" by (simp add: getattr_def)

lemma ok_events_append: "ok_events w tr (a @ b) = (ok_events w tr a \<and> ok_events w (tr @ a) b)"
  by (induction a arbitrary: tr) auto

lemma ok_events_butlast: "ok_events w tr a \<Longrightarrow> ok_events w tr (butlast a)"
  by (induction a arbitrary: tr) auto

lemma fault_free_ok: "fault_free w \<Longrightarrow> ok_events w tr es"
  by (induction es arbitrary: tr) (auto simp: fault_free_def)

lemma make_gesture_ok:
  assumes "get_joint_values g = Inr jv" "wrist_yaw_joint s" "wrist_roll_joint s" "robot s"
    "ok_events w (trace s) (gesture_events jv)"
  shows "make_gesture w g s = (Inr (), s\<lparr>trace := trace s @ gesture_events jv\<rparr>)"
  using assms
  by (simp add: make_gesture_def gesture_events_def bnd_def lift_def act_def getattr_def ret_def)

lemma make_gesture_prefix:
  assumes "get_joint_values g = Inr jv" "wrist_yaw_joint s" "wrist_roll_joint s" "robot s"
  shows "\<exists>new. trace (snd (make_gesture w g s)) = trace s @ new \<and> prefix new (gesture_events jv)"
  using assms
  by (simp add: make_gesture_def gesture_events_def bnd_def lift_def act_def getattr_def ret_def
      split: option.splits)

lemma get_joint_values_total: "\<exists>jv. get_joint_values g = Inr jv"
  by (cases g) (simp_all add: get_joint_values_def gestures_def)

lemma speak_ok: "ok_events w (trace s) (speak_events text) \<Longrightarrow>
   speak w text s = (Inr (), s\<lparr>trace := trace s @ speak_events text\<rparr>)"
  by (simp add: speak_def speak_events_def bnd_def act_def ret_def)

lemma block_act: "faults w (trace s) e = None \<Longrightarrow>
   block (act w e # cs) s = block cs (s\<lparr>trace := trace s @ [e]\<rparr>)"
  by (simp add: bnd_def act_def)

lemma block_getattr: "f s \<Longrightarrow> block (getattr f # cs) s = block cs s"
  by (simp add: bnd_def getattr_def)

lemma block_nil: "block [] s = (Inr (), s)" by (simp add: ret_def)

lemma block_thread_start: "faults w (trace s) (ThreadStart word) = None \<Longrightarrow>
   block (thread_start w word # cs) s =
   block cs (s\<lparr>trace := trace s @ [ThreadStart word],
               threads := threads s @ [run_thread (speak w word) (s\<lparr>trace := trace s @ [ThreadStart word]\<rparr>)]\<rparr>)"
  by (simp add: bnd_def act_def thread_start_def)

lemma move_arm_animation_ok:
  assumes "robot s" "ok_events w (trace s) (bob_events word (lift_pos w (trace s)))"
  shows "move_arm_animation w word s =
     (Inr (), s\<lparr>trace := trace s @ bob_events word (lift_pos w (trace s)),
                threads := threads s @ [run_thread (speak w word)
                   (s\<lparr>trace := trace s @ [LiftMoveBy 0.1, PushCommand, ThreadStart word]\<rparr>)]\<rparr>)"
  using assms
  by (simp add: move_arm_animation_def bob_events_def getattr_ok bnd_Inr[OF getattr_ok]
     block_act block_getattr block_thread_start block_nil del: block.simps)

lemma act_ff: "fault_free w \<Longrightarrow> act w e s = (Inr (), s\<lparr>trace := trace s @ [e]\<rparr>)"
  by (simp add: act_def fault_free_def)

lemma echo_ff: "fault_free w \<Longrightarrow>
   echo w msg nl s = (Inr (), s\<lparr>trace := trace s @ [Echo (if nl then msg @ newline else msg)]\<rparr>)"
  by (simp add: echo_def act_ff)

lemma speak_ff: "fault_free w \<Longrightarrow>
   speak w text s = (Inr (), s\<lparr>trace := trace s @ speak_events text\<rparr>)"
  by (simp add: speak_ok fault_free_ok)

lemma run_thread_ff: "fault_free w \<Longrightarrow> run_thread (speak w word) s = (speak_events word, None)"
  by (simp add: run_thread_def speak_ff)

lemma move_arm_animation_ff:
  assumes "fault_free w" "robot s"
  shows "move_arm_animation w word s =
     (Inr (), s\<lparr>trace := trace s @ bob_events word (lift_pos w (trace s)),
                threads := threads s @ [(speak_events word, None)]\<rparr>)"
  using move_arm_animation_ok[OF assms(2) fault_free_ok[OF assms(1)], of word]
  by (simp add: run_thread_ff[OF assms(1)])

lemma countdown_ff:
  assumes "fault_free w" "robot s"
  shows "countdown w words s =
     (Inr (), s\<lparr>trace := trace s @ concat (map2 word_events words (countdown_heights w (trace s) words)),
                threads := threads s @ map (\<lambda>word. (speak_events word, None)) words\<rparr>)"
  using assms(2)
proof (induction words arbitrary: s)
  case Nil
  show ?case by (simp add: countdown_def ret_def)
next
  case (Cons word words)
  let ?tr = "trace s @ [Echo (word @ ''...'')]"
  let ?h = "lift_pos w ?tr"
  let ?s2 = "s\<lparr>trace := trace s @ word_events word ?h,
               threads := threads s @ [(speak_events word, None)]\<rparr>"
  have r2: "robot ?s2" using Cons.prems by simp
  have "countdown w (word # words) s = countdown w words ?s2"
    using Cons.prems
    by (simp add: countdown_def bnd_def ret_def echo_ff[OF assms(1)]
        move_arm_animation_ff[OF assms(1)] word_events_def)
  also note Cons.IH[OF r2]
  finally show ?case by (simp add: Let_def)
qed

lemma length_countdown_heights: "length (countdown_heights w tr words) = length words"
  by (induction words arbitrary: tr) (simp_all add: Let_def)

lemma random_choice_ff: "fault_free w \<Longrightarrow>
  random_choice w valid_moves s =
    (Inr (round_move w (trace s)), s\<lparr>trace := trace s @ [RandomChoice valid_moves]\<rparr>)"
  by (simp add: random_choice_def bnd_def act_ff round_move_def) (simp add: valid_moves_def)

lemma round_move_cases:
  "round_move w tr = ''rock'' \<or> round_move w tr = ''paper'' \<or> round_move w tr = ''scissors''"
proof -
  have "randbelow w (tr @ [RandomChoice valid_moves]) mod 3 < 3" by simp
  then have "randbelow w (tr @ [RandomChoice valid_moves]) mod 3 \<in> {0, 1, 2}" by auto
  then show ?thesis by (auto simp: round_move_def valid_moves_def)
qed

lemma upper_moves: "upper ''rock'' = ''ROCK''" "upper ''paper'' = ''PAPER''"
  "upper ''scissors'' = ''SCISSORS''"
  by (simp_all add: upper_def)

lemma move_gesture:
  assumes "mv = ''rock'' \<or> mv = ''paper'' \<or> mv = ''scissors''"
  shows "\<exists>g. Guestures_by_name (upper mv) = Inr g \<and> get_joint_values g = Inr (move_pose mv)"
  using assms
  by (auto simp: upper_moves Guestures_by_name_def get_joint_values_def gestures_def move_pose_def)

lemma make_gesture_ff:
  assumes "fault_free w" "get_joint_values g = Inr jv" "wrist_yaw_joint s" "wrist_roll_joint s" "robot s"
  shows "make_gesture w g s = (Inr (), s\<lparr>trace := trace s @ gesture_events jv\<rparr>)"
  using make_gesture_ok[OF assms(2-5) fault_free_ok[OF assms(1)]] .

lemma play_round_ff:
  assumes ff: "fault_free w" and st: "robot s" "wrist_yaw_joint s" "wrist_roll_joint s"
  shows "play_round w s =
     (Inr (round_move w (trace s)),
      s\<lparr>trace := trace s @ round_events (round_move w (trace s)) (move_pose (round_move w (trace s)))
                              (round_heights w (trace s)),
        threads := threads s @ round_threads\<rparr>)"
proof -
  let ?mv = "round_move w (trace s)"
  from move_gesture[OF round_move_cases] obtain g where
    g: "Guestures_by_name (upper ?mv) = Inr g" "get_joint_values g = Inr (move_pose ?mv)" by blast
  show ?thesis
    using st g(1)
    by (simp add: play_round_def bnd_def ret_def lift_def random_choice_ff[OF ff] speak_ff[OF ff]
        echo_ff[OF ff] act_ff[OF ff] countdown_ff[OF ff] make_gesture_ff[OF ff g(2)]
        round_events_def round_heights_def round_threads_def)
qed

lemma fault_free_with_draw: "fault_free (with_draw w k) = fault_free w"
  by (simp add: fault_free_def with_draw_def)

lemma round_move_with_draw: "round_move (with_draw w k) tr = valid_moves ! (k mod 3)"
  by (simp add: round_move_def with_draw_def valid_moves_def)

lemma upt_3: "[0..<3] = [0, 1, 2]"
  by (simp add: upt_rec)

lemma move_probability_ff:
  assumes "fault_free w" "robot s" "wrist_yaw_joint s" "wrist_roll_joint s"
  shows "move_probability w s mv =
     (if mv = ''rock'' \<or> mv = ''paper'' \<or> mv = ''scissors'' then 1 / 3 else 0)"
proof -
  have ff: "\<And>k. fault_free (with_draw w k)" using assms(1) by (simp add: fault_free_with_draw)
  have r: "\<And>k. fst (play_round (with_draw w k) s) = Inr (valid_moves ! (k mod 3))"
    by (simp add: play_round_ff[OF ff assms(2-4)] round_move_with_draw)
  have l: "length valid_moves = 3" by (simp add: valid_moves_def)
  show ?thesis
    unfolding move_probability_def r l upt_3
    by (auto simp add: valid_moves_def)
qed

lemma play_cycle_ff:
  assumes ff: "fault_free w" and st: "robot s" "wrist_yaw_joint s" "wrist_roll_joint s"
  shows "play_cycle w rounds n s =
     (Inr (), s\<lparr>trace := trace s @ cycle_events rounds n (cycle_data w rounds n (trace s)),
                threads := threads s @ round_threads\<rparr>)"
proof -
  have reset: "get_joint_values RESET = Inr \<lparr>gripper = 100, wrist_yaw = 0, wrist_roll = 0\<rparr>"
    by (simp add: get_joint_values_def gestures_def)
  show ?thesis
    using st
    by (simp add: play_cycle_def prompt_def bnd_def ret_def getattr_def act_ff[OF ff]
        make_gesture_ff[OF ff reset] echo_ff[OF ff] speak_ff[OF ff] play_round_ff[OF ff]
        cycle_events_def cycle_data_def reset_events_def Let_def)
qed

lemma for_each_cycles_ff:
  assumes ff: "fault_free w"
  shows "robot s \<Longrightarrow> wrist_yaw_joint s \<Longrightarrow> wrist_roll_joint s \<Longrightarrow>
    for_each ns (play_cycle w rounds) s =
     (Inr (), s\<lparr>trace := trace s @
                   concat (map2 (cycle_events rounds) ns (session_data w rounds (trace s) ns)),
                threads := threads s @ concat (replicate (length ns) round_threads)\<rparr>)"
proof (induction ns arbitrary: s)
  case Nil
  show ?case by (simp add: ret_def)
next
  case (Cons n ns)
  let ?s1 = "s\<lparr>trace := trace s @ cycle_events rounds n (cycle_data w rounds n (trace s)),
               threads := threads s @ round_threads\<rparr>"
  have st1: "robot ?s1" "wrist_yaw_joint ?s1" "wrist_roll_joint ?s1" using Cons.prems by simp_all
  have "for_each (n # ns) (play_cycle w rounds) s = for_each ns (play_cycle w rounds) ?s1"
    using Cons.prems by (simp add: bnd_def play_cycle_ff[OF ff])
  also note Cons.IH[OF st1]
  finally show ?case by (simp add: Let_def)
qed

lemma length_session_data: "length (session_data w rounds tr ns) = length ns"
  by (induction ns arbitrary: tr) (simp_all add: Let_def)

lemma init_robot_ff:
  assumes ff: "fault_free w" and up: "\<forall>tr. startup_ok w tr"
  shows "init_robot w s =
    (Inr (), s\<lparr>trace := trace s @ robot_events, robot := True,
               wrist_yaw_joint := True, wrist_roll_joint := True\<rparr>)"
  using up
  by (simp add: init_robot_def startup_def bnd_def ret_def getattr_def act_ff[OF ff]
      set_robot_def set_wrist_yaw_def set_wrist_roll_def robot_events_def)

lemma session_ff:
  assumes ff: "fault_free w" and up: "\<forall>tr. startup_ok w tr"
  shows "session w rounds s =
    (Inr (), s\<lparr>trace := trace s @ robot_events @
                  speak_events ''Hello! I'm ready to play Rock Paper Scissors!'' @
                  concat (map2 (cycle_events rounds) [1..rounds]
                     (session_data w rounds
                        (trace s @ robot_events @
                         speak_events ''Hello! I'm ready to play Rock Paper Scissors!'')
                        [1..rounds])) @
                  (if rounds > 1 then speak_events ''Thanks for playing!'' else []),
               threads := threads s @ concat (replicate (nat rounds) round_threads),
               robot := True, wrist_yaw_joint := True, wrist_roll_joint := True\<rparr>)"
  by (simp add: session_def bnd_def ret_def init_robot_ff[OF ff up] speak_ff[OF ff]
      for_each_cycles_ff[OF ff])

lemma play_ff:
  assumes ff: "fault_free w" and up: "\<forall>tr. startup_ok w tr"
  shows "play w rounds init_state =
    (Inr (), init_state\<lparr>trace := game_events @ robot_events @
                  speak_events ''Hello! I'm ready to play Rock Paper Scissors!'' @
                  concat (map2 (cycle_events rounds) [1..rounds]
                     (session_data w rounds
                        (game_events @ robot_events @
                         speak_events ''Hello! I'm ready to play Rock Paper Scissors!'')
                        [1..rounds])) @
                  (if rounds > 1 then speak_events ''Thanks for playing!'' else []) @
                  teardown_events,
               threads := concat (replicate (nat rounds) round_threads),
               robot := True, wrist_yaw_joint := True, wrist_roll_joint := True\<rparr>)"
  by (simp add: play_def bnd_def ret_def RockPaperScissors_init_def act_ff[OF ff]
      try_finally_def try_except_def session_ff[OF ff up] teardown_def cleanup_def getattr_def
      game_events_def teardown_events_def init_state_def)

lemma make_gesture_returns_iff:
  assumes "get_joint_values g = Inr jv" "wrist_yaw_joint s" "wrist_roll_joint s" "robot s"
  shows "(fst (make_gesture w g s) = Inr ()) = ok_events w (trace s) (gesture_events jv)"
  using assms
  by (simp add: make_gesture_def gesture_events_def bnd_def lift_def act_def getattr_def ret_def
      split: option.splits)

lemma filter_thread_words:
  "length hs = length words \<Longrightarrow>
   filter thread_event (concat (map2 word_events words hs)) =
   concat (map (\<lambda>word. [ThreadStart word, ThreadJoin word]) words)"
  by (induction words hs rule: list_induct2') (simp_all add: word_events_def bob_events_def)

lemma no_choice_in_words:
  "RandomChoice seq \<notin> set (concat (map2 word_events ws hs))"
  by (induction ws hs rule: list_induct2') (simp_all add: word_events_def bob_events_def)

lemma no_wait_in_words:
  "WaitCommand \<notin> set (concat (map2 word_events ws hs))"
  by (induction ws hs rule: list_induct2') (simp_all add: word_events_def bob_events_def)

lemma round_move_pose:
  "\<exists>g. Guestures_by_name (upper (round_move w tr)) = Inr g \<and>
       get_joint_values g = Inr (move_pose (round_move w tr)) \<and>
       (round_move w tr, g) \<in> {(''rock'', ROCK), (''paper'', PAPER), (''scissors'', SCISSORS)}"
  using round_move_cases[of w tr]
  by (auto simp: upper_moves Guestures_by_name_def get_joint_values_def gestures_def move_pose_def)

lemma count_wait_cycle: "count_list (cycle_events rounds n x) WaitCommand = 1"
proof -
  obtain mv jv hs pc where x: "x = (mv, jv, hs, pc)" by (cases x) auto
  have "count_list (concat (map2 word_events [''Rock'', ''Paper'', ''Scissors''] hs)) WaitCommand = 0"
    using no_wait_in_words by (simp only: count_list_0_iff) simp
  then show ?thesis
    by (simp add: x cycle_events_def reset_events_def round_events_def gesture_events_def
        speak_events_def)
qed

lemma count_wait_cycles:
  "length xs = length ns \<Longrightarrow>
   count_list (concat (map2 (cycle_events rounds) ns xs)) WaitCommand = length ns"
  by (induction xs ns rule: list_induct2) (simp_all add: count_wait_cycle)

subsection \<open>Runs in which calls may fail\<close>

text \<open>
  The rules below derive \<open>emits\<close> for every part of the program: whatever fails, a
  computation only appends calls, and only its last call can have raised.
\<close>

lemma emits_act: "Q e \<Longrightarrow> emits w Q (act w e)"
  unfolding emits_def
proof
  fix s
  assume q: "Q e"
  show "\<exists>ev. trace (snd (act w e s)) = trace s @ ev \<and> list_all Q ev \<and>
            (robot s \<longrightarrow> robot (snd (act w e s))) \<and>
            ok_events w (trace s) (case fst (act w e s) of Inr _ \<Rightarrow> ev | Inl _ \<Rightarrow> butlast ev)"
    using q by (intro exI[of _ "[e]"]) (simp add: act_def split: option.splits)
qed

lemma emits_pure:
  assumes "\<And>s. trace (snd (c s)) = trace s" "\<And>s. robot s \<Longrightarrow> robot (snd (c s))"
  shows "emits w Q c"
  unfolding emits_def
proof
  fix s
  show "\<exists>ev. trace (snd (c s)) = trace s @ ev \<and> list_all Q ev \<and>
            (robot s \<longrightarrow> robot (snd (c s))) \<and>
            ok_events w (trace s) (case fst (c s) of Inr _ \<Rightarrow> ev | Inl _ \<Rightarrow> butlast ev)"
    using assms by (intro exI[of _ "[]"]) (simp split: sum.splits)
qed

lemma emits_bnd:
  assumes c: "emits w Q c" and f: "\<And>v. emits w Q (f v)"
  shows "emits w Q (bnd c f)"
  unfolding emits_def
proof
  fix s
  obtain r s1 where cs: "c s = (r, s1)" by (cases "c s") auto
  from c[unfolded emits_def, rule_format, of s] cs obtain ev1 where
    e1: "trace s1 = trace s @ ev1" "list_all Q ev1" "robot s \<longrightarrow> robot s1"
        "ok_events w (trace s) (case r of Inr _ \<Rightarrow> ev1 | Inl _ \<Rightarrow> butlast ev1)"
    by auto
  show "\<exists>ev. trace (snd (bnd c f s)) = trace s @ ev \<and> list_all Q ev \<and>
            (robot s \<longrightarrow> robot (snd (bnd c f s))) \<and>
            ok_events w (trace s) (case fst (bnd c f s) of Inr _ \<Rightarrow> ev | Inl _ \<Rightarrow> butlast ev)"
  proof (cases r)
    case (Inl x)
    then show ?thesis using cs e1 by (intro exI[of _ ev1]) (simp add: bnd_def)
  next
    case (Inr v)
    obtain r2 s2 where fs: "f v s1 = (r2, s2)" by (cases "f v s1") auto
    from f[of v, unfolded emits_def, rule_format, of s1] fs obtain ev2 where
      e2: "trace s2 = trace s1 @ ev2" "list_all Q ev2" "robot s1 \<longrightarrow> robot s2"
          "ok_events w (trace s1) (case r2 of Inr _ \<Rightarrow> ev2 | Inl _ \<Rightarrow> butlast ev2)"
      by auto
    have b: "bnd c f s = (r2, s2)" using cs Inr fs by (simp add: bnd_def)
    have ok1: "ok_events w (trace s) ev1" using e1(4) Inr by simp
    have ok: "ok_events w (trace s) (case r2 of Inr _ \<Rightarrow> ev1 @ ev2 | Inl _ \<Rightarrow> butlast (ev1 @ ev2))"
      using ok1 e2(4) e1(1)
      by (cases r2) (auto simp: ok_events_append butlast_append ok_events_butlast)
    show ?thesis
      using b e1 e2 ok by (intro exI[of _ "ev1 @ ev2"]) simp
  qed
qed

lemma emits_ret: "emits w Q (ret v)" by (simp add: emits_pure ret_def)
lemma emits_raise: "emits w Q (raise x)" by (simp add: emits_pure raise_def)
lemma emits_lift: "emits w Q (lift r)" by (simp add: emits_pure lift_def)
lemma emits_getattr: "emits w Q (getattr f)" by (simp add: emits_pure getattr_def)
lemma emits_set_wrist_yaw: "emits w Q set_wrist_yaw" by (simp add: emits_pure set_wrist_yaw_def)
lemma emits_set_wrist_roll: "emits w Q set_wrist_roll" by (simp add: emits_pure set_wrist_roll_def)

lemma emits_block: "list_all (emits w Q) cs \<Longrightarrow> emits w Q (block cs)"
proof (induction cs)
  case Nil
  show ?case by (simp add: emits_ret)
next
  case (Cons c cs)
  then show ?case by (simp add: emits_bnd)
qed

lemma emits_for_each: "(\<And>x. emits w Q (body x)) \<Longrightarrow> emits w Q (for_each xs body)"
  by (induction xs) (simp_all add: emits_ret emits_bnd)

lemma not_teardown:
  "\<not> is_teardown (Say t)" "\<not> is_teardown (Sleep d)" "\<not> is_teardown (Echo t)"
  "\<not> is_teardown (LiftMoveBy d)" "\<not> is_teardown (LiftMoveTo h)"
  "\<not> is_teardown (JointMoveTo j v)" "\<not> is_teardown PushCommand" "\<not> is_teardown WaitCommand"
  "\<not> is_teardown (ThreadStart t)" "\<not> is_teardown (ThreadJoin t)"
  "\<not> is_teardown (RandomChoice seq)" "\<not> is_teardown (Prompt t)"
  "\<not> is_teardown RobotCreate" "\<not> is_teardown RobotStartup" "\<not> is_teardown (GetJoint j)"
  "\<not> is_teardown (Popen a)" "\<not> is_teardown RclpyInit" "\<not> is_teardown (NodeCreate n)"
  "\<not> is_teardown SoundClientCreate"
  by (simp_all add: is_teardown_def teardown_events_def)

lemma farewell_not_teardown: "is_farewell e \<Longrightarrow> \<not> is_teardown e"
  by (cases e) (simp_all add: is_teardown_def teardown_events_def)

lemma emits_speak: "emits w (\<lambda>e. \<not> is_teardown e) (speak w utterance)"
  unfolding speak_def by (rule emits_block) (simp add: emits_act not_teardown)

lemma emits_echo: "emits w (\<lambda>e. \<not> is_teardown e) (echo w msg nl)"
  unfolding echo_def by (rule emits_act) (rule not_teardown)

lemma farewell_speak: "emits w is_farewell (speak w utterance)"
  unfolding speak_def by (rule emits_block) (simp add: emits_act)

lemma farewell_echo: "emits w is_farewell (echo w msg nl)"
  unfolding echo_def by (rule emits_act) simp

lemma handlers_emit: "handlers w x = Some k \<Longrightarrow> emits w is_farewell k"
proof (cases x)
  case (ClickException e)
  assume "handlers w x = Some k"
  with ClickException have "k = echo w (''Error: '' @ e) True" by simp
  then show ?thesis by (simp add: farewell_echo)
next
  case KeyboardInterrupt
  assume "handlers w x = Some k"
  with KeyboardInterrupt have "k = block [echo w (newline @ ''Game interrupted by user'') True,
                  speak w ''Game interrupted. Goodbye!'']" by simp
  then show ?thesis by (simp add: emits_block farewell_echo farewell_speak del: block.simps)
qed simp_all

lemma emits_thread_start: "emits w (\<lambda>e. \<not> is_teardown e) (thread_start w word)"
  unfolding thread_start_def
  by (rule emits_bnd, rule emits_act, rule not_teardown, rule emits_pure) simp_all

lemma emits_move_arm_animation: "emits w (\<lambda>e. \<not> is_teardown e) (move_arm_animation w word)"
proof -
  have em: "\<And>h. emits w (\<lambda>e. \<not> is_teardown e)
     (block [getattr robot, act w (LiftMoveBy 0.1),
               getattr robot, act w PushCommand,
               thread_start w word,
               act w (Sleep 0.5),
               getattr robot, act w (LiftMoveTo h),
               getattr robot, act w PushCommand,
               act w (Sleep 0.5),
               act w (ThreadJoin word)])"
    by (rule emits_block) (simp add: emits_act emits_getattr emits_thread_start not_teardown)
  show ?thesis
    unfolding emits_def
  proof
    fix s
    show "\<exists>ev. trace (snd (move_arm_animation w word s)) = trace s @ ev \<and>
            list_all (\<lambda>e. \<not> is_teardown e) ev \<and>
            (robot s \<longrightarrow> robot (snd (move_arm_animation w word s))) \<and>
            ok_events w (trace s)
              (case fst (move_arm_animation w word s) of Inr _ \<Rightarrow> ev | Inl _ \<Rightarrow> butlast ev)"
    proof (cases "robot s")
      case True
      then have "move_arm_animation w word s =
        block [getattr robot, act w (LiftMoveBy 0.1),
               getattr robot, act w PushCommand,
               thread_start w word,
               act w (Sleep 0.5),
               getattr robot, act w (LiftMoveTo (lift_pos w (trace s))),
               getattr robot, act w PushCommand,
               act w (Sleep 0.5),
               act w (ThreadJoin word)] s"
        by (simp add: move_arm_animation_def bnd_Inr[OF getattr_ok] del: block.simps)
      with em[of "lift_pos w (trace s)", unfolded emits_def, rule_format, of s]
      show ?thesis by simp
    next
      case False
      then have "move_arm_animation w word s = (Inl AttributeError, s)"
        by (simp add: move_arm_animation_def bnd_def getattr_def)
      then show ?thesis by (intro exI[of _ "[]"]) simp
    qed
  qed
qed

lemma emits_make_gesture: "emits w (\<lambda>e. \<not> is_teardown e) (make_gesture w g)"
  unfolding make_gesture_def
  by (rule emits_bnd, rule emits_lift, rule emits_block)
     (simp add: emits_act emits_getattr not_teardown)

lemma emits_countdown: "emits w (\<lambda>e. \<not> is_teardown e) (countdown w words)"
  unfolding countdown_def
  by (rule emits_for_each, rule emits_block) (simp add: emits_echo emits_move_arm_animation)

lemma emits_random_choice: "emits w (\<lambda>e. \<not> is_teardown e) (random_choice w seq)"
  unfolding random_choice_def
  by (rule emits_bnd, rule emits_act, rule not_teardown, rule emits_pure) simp_all

lemma emits_prompt: "emits w (\<lambda>e. \<not> is_teardown e) (prompt w)"
  unfolding prompt_def
  by (rule emits_bnd, rule emits_act, rule not_teardown, rule emits_pure) simp_all

lemma emits_startup: "emits w (\<lambda>e. \<not> is_teardown e) (startup w)"
  unfolding startup_def
  by (rule emits_bnd, rule emits_act, rule not_teardown, rule emits_pure) simp_all

lemma emits_named_gesture:
  "emits w (\<lambda>e. \<not> is_teardown e) (bnd (lift (Guestures_by_name name)) (make_gesture w))"
  by (rule emits_bnd, rule emits_lift, rule emits_make_gesture)

lemma emits_play_round: "emits w (\<lambda>e. \<not> is_teardown e) (play_round w)"
  unfolding play_round_def
  apply (rule emits_bnd, rule emits_random_choice)
  apply (rule emits_bnd)
   apply (rule emits_block)
   apply (simp add: emits_speak emits_echo emits_act emits_countdown emits_named_gesture not_teardown)
  apply (rule emits_ret)
  done

lemma emits_verdict:
  "emits w (\<lambda>e. \<not> is_teardown e)
     (bnd (play_round w) (\<lambda>stretch_choice.
            bnd (prompt w) (\<lambda>player_choice.
              (let result = determine_winner stretch_choice player_choice in
               block [echo w (newline @ result) True, speak w result]))))"
  apply (rule emits_bnd, rule emits_play_round)
  apply (rule emits_bnd, rule emits_prompt)
  unfolding Let_def
  apply (rule emits_block)
  apply (simp add: emits_echo emits_speak)
  done

lemma emits_play_cycle: "emits w (\<lambda>e. \<not> is_teardown e) (play_cycle w rounds n)"
  unfolding play_cycle_def
  apply (rule emits_block)
  apply (simp add: emits_speak emits_echo emits_act emits_getattr emits_make_gesture emits_ret
        emits_block emits_verdict not_teardown del: block.simps)
  done


lemma emits_startup_check:
  "emits w (\<lambda>e. \<not> is_teardown e)
     (bnd (startup w) (\<lambda>ok.
              if \<not> ok then raise (ClickException ''Failed to initialize the robot'')
              else ret ()))"
  by (rule emits_bnd, rule emits_startup) (simp add: emits_raise emits_ret)

lemma bnd_block_act: "faults w (trace s) e = None \<Longrightarrow>
   bnd (block (act w e # cs)) k s = bnd (block cs) k (s\<lparr>trace := trace s @ [e]\<rparr>)"
  by (simp add: bnd_def act_def)

lemma bnd_block_set_robot:
  "bnd (block (set_robot # cs)) k s = bnd (block cs) k (s\<lparr>robot := True\<rparr>)"
  by (simp add: bnd_def set_robot_def)

lemma session_emits:
  assumes "faults w (trace s) RobotCreate = None"
  shows "\<exists>ev. trace (snd (session w rounds s)) = trace s @ RobotCreate # ev \<and>
     list_all (\<lambda>e. \<not> is_teardown e) ev \<and> robot (snd (session w rounds s)) \<and>
     ok_events w (trace s @ [RobotCreate])
       (case fst (session w rounds s) of Inr _ \<Rightarrow> ev | Inl _ \<Rightarrow> butlast ev)"
proof -
  define rest where "rest =
     bnd (block [bnd (startup w) (\<lambda>ok.
              if \<not> ok then raise (ClickException ''Failed to initialize the robot'')
              else ret ()),
            getattr robot, act w (GetJoint ''wrist_yaw''), set_wrist_yaw,
            getattr robot, act w (GetJoint ''wrist_roll''), set_wrist_roll])
       (\<lambda>_. block [speak w ''Hello! I'm ready to play Rock Paper Scissors!'',
            for_each [1..rounds] (play_cycle w rounds),
            if rounds > 1 then speak w ''Thanks for playing!'' else ret ()])"
  have em: "emits w (\<lambda>e. \<not> is_teardown e) rest"
    unfolding rest_def
    apply (rule emits_bnd)
     apply (rule emits_block)
     apply (simp add: emits_startup_check emits_getattr emits_act emits_set_wrist_yaw
        emits_set_wrist_roll not_teardown)
    apply (rule emits_block)
    apply (simp add: emits_speak emits_for_each emits_play_cycle emits_ret)
    done
  let ?s1 = "s\<lparr>trace := trace s @ [RobotCreate], robot := True\<rparr>"
  have "session w rounds s =
     bnd (init_robot w) (\<lambda>_. block [speak w ''Hello! I'm ready to play Rock Paper Scissors!'',
            for_each [1..rounds] (play_cycle w rounds),
            if rounds > 1 then speak w ''Thanks for playing!'' else ret ()]) s"
    unfolding session_def by (subst block.simps(2)) (rule refl)
  also have "\<dots> = rest ?s1"
    unfolding init_robot_def rest_def
    using assms by (simp add: bnd_block_act bnd_block_set_robot del: block.simps)
  finally have eq: "session w rounds s = rest ?s1" .
  from em[unfolded emits_def, rule_format, of ?s1] obtain ev where
    "trace (snd (rest ?s1)) = trace ?s1 @ ev" "list_all (\<lambda>e. \<not> is_teardown e) ev"
    "robot ?s1 \<longrightarrow> robot (snd (rest ?s1))"
    "ok_events w (trace ?s1) (case fst (rest ?s1) of Inr _ \<Rightarrow> ev | Inl _ \<Rightarrow> butlast ev)"
    by blast
  then show ?thesis
    unfolding eq by (intro exI[of _ ev]) simp
qed

lemma try_except_handlers:
  "\<exists>fw. trace (snd (try_except c (handlers w) s)) = trace (snd (c s)) @ fw \<and>
     list_all is_farewell fw \<and>
     (robot (snd (c s)) \<longrightarrow> robot (snd (try_except c (handlers w) s)))"
proof -
  obtain r s1 where cs: "c s = (r, s1)" by (cases "c s") auto
  show ?thesis
  proof (cases r)
    case (Inr v)
    then show ?thesis using cs by (intro exI[of _ "[]"]) (simp add: try_except_def)
  next
    case (Inl x)
    show ?thesis
    proof (cases "handlers w x")
      case None
      then show ?thesis using cs Inl by (intro exI[of _ "[]"]) (simp add: try_except_def)
    next
      case (Some k)
      from handlers_emit[OF Some, unfolded emits_def, rule_format, of s1] obtain ev where
        "trace (snd (k s1)) = trace s1 @ ev" "list_all is_farewell ev"
        "robot s1 \<longrightarrow> robot (snd (k s1))"
        by blast
      then show ?thesis
        using cs Inl Some by (intro exI[of _ ev]) (simp add: try_except_def)
    qed
  qed
qed

lemma teardown_trace:
  assumes "robot s"
  shows "\<exists>fin. trace (snd (teardown w s)) = trace s @ fin \<and> prefix fin teardown_events \<and>
     fin \<noteq> [] \<and>
     (fin = teardown_events) = ok_events w (trace s) [RobotStop, RclpyShutdown, Getpgid]"
  using assms
  by (simp add: teardown_def cleanup_def teardown_events_def bnd_def act_def getattr_def ret_def
      split: option.splits)

lemma snd_try_finally: "snd (try_finally c fin s) = snd (fin (snd (c s)))"
  by (simp add: try_finally_def split: prod.splits sum.splits)

lemma play_started:
  assumes "ok_events w [] game_events"
  shows "play w rounds init_state =
     try_finally (try_except (session w rounds) (handlers w)) (teardown w)
       (init_state\<lparr>trace := game_events\<rparr>)"
  using assms
  by (simp add: play_def RockPaperScissors_init_def game_events_def init_state_def
      bnd_def act_def ret_def split: prod.splits sum.splits)

lemma count_list_distinct: "distinct xs \<Longrightarrow> count_list xs e = (if e \<in> set xs then 1 else 0)"
  by (induction xs) auto

lemma count_list_none: "list_all (\<lambda>e. \<not> P e) xs \<Longrightarrow> P e \<Longrightarrow> count_list xs e = 0"
  by (induction xs) auto

lemma distinct_teardown_prefix: "prefix fin teardown_events \<Longrightarrow> distinct fin"
  by (auto simp: prefix_def teardown_events_def dest!: sym[of "[RobotStop, RclpyShutdown, Getpgid, Killpg]"]
      simp: append_eq_Cons_conv)

lemma game_events_not_teardown: "list_all (\<lambda>e. \<not> is_teardown e) game_events"
  by (simp add: game_events_def not_teardown)

lemma ok_events_mid: "ok_events w tr (pre @ e # post) \<Longrightarrow> faults w (tr @ pre) e = None"
  by (simp add: ok_events_append)

lemma failing_call_is_last:
  assumes em: "emits w Q c"
    and tr: "trace (snd (c s)) = trace s @ pre @ e # post"
    and f: "faults w (trace s @ pre) e = Some y"
  shows "post = [] \<and> (\<exists>z. fst (c s) = Inl z)"
proof -
  from em[unfolded emits_def, rule_format, of s] tr have
    ok: "ok_events w (trace s) (case fst (c s) of Inr _ \<Rightarrow> pre @ e # post
                                 | Inl _ \<Rightarrow> butlast (pre @ e # post))"
    by auto
  show ?thesis
  proof (cases "fst (c s)")
    case (Inr v)
    with ok have "ok_events w (trace s) (pre @ e # post)" by simp
    from ok_events_mid[OF this] f show ?thesis by simp
  next
    case (Inl z)
    have "post = []"
    proof (rule ccontr)
      assume "post \<noteq> []"
      with ok Inl have "ok_events w (trace s) (pre @ e # butlast post)"
        by (simp add: butlast_append)
      from ok_events_mid[OF this] f show False by simp
    qed
    with Inl show ?thesis by simp
  qed
qed

lemma speak_raises: "faults w (trace s) (Say utterance) = Some x \<Longrightarrow>
   speak w utterance s = (Inl x, s\<lparr>trace := trace s @ [Say utterance]\<rparr>)"
  by (simp add: speak_def bnd_def act_def)

lemma play_round_first_say:
  assumes "faults w (trace s) (RandomChoice valid_moves) = None"
    "faults w (trace s @ [RandomChoice valid_moves]) (Say ''Let's play!'') = Some x"
  shows "play_round w s =
     (Inl x, s\<lparr>trace := trace s @ [RandomChoice valid_moves, Say ''Let's play!'']\<rparr>)"
  using assms
  by (simp add: play_round_def random_choice_def speak_def bnd_def act_def valid_moves_def)

lemma run_thread_raises: "faults w [] (Say word) = Some x \<Longrightarrow>
   run_thread (speak w word) s = ([Say word], Some x)"
  by (simp add: run_thread_def speak_def bnd_def act_def)

section \<open>The outcome evaluator\<close>

text \<open>
  Claim C1. For every pair of moves drawn from rock, paper, scissors,
  \<open>determine_winner\<close> returns the tie message when the two moves are equal, the
  robot-wins message exactly for (rock, scissors), (paper, rock), (scissors, paper), and
  the player-wins message in the three remaining cases: of the nine pairs, three are ties,
  three are robot wins and three are player wins.
\<close>

theorem determine_winner_table:
  "(\<forall>r \<in> set valid_moves. \<forall>p \<in> set valid_moves.
      determine_winner r p =
        (if r = p then ''It's a tie!''
         else if (r, p) \<in> {(''rock'', ''scissors''), (''paper'', ''rock''), (''scissors'', ''paper'')}
         then ''Stretch wins!'' else ''You win!'')) \<and>
   length (filter (\<lambda>(r, p). determine_winner r p = ''It's a tie!'')
             (List.product valid_moves valid_moves)) = 3 \<and>
   length (filter (\<lambda>(r, p). determine_winner r p = ''Stretch wins!'')
             (List.product valid_moves valid_moves)) = 3 \<and>
   length (filter (\<lambda>(r, p). determine_winner r p = ''You win!'')
             (List.product valid_moves valid_moves)) = 3"
  by (simp add: determine_winner_def valid_moves_def)

theorem determine_winner_table_witness:
  "''paper'' \<in> set valid_moves \<and> ''rock'' \<in> set valid_moves \<and>
   determine_winner ''paper'' ''rock'' = ''Stretch wins!'' \<and>
   determine_winner ''scissors'' ''scissors'' = ''It's a tie!''"
  using determine_winner_table by (simp add: valid_moves_def)

text \<open>
  Claim C10. \<open>determine_winner\<close> is total over arbitrary strings: two equal strings,
  valid moves or not, give the tie message, and an unequal pair that is not one of the
  three robot-winning pairs gives the player-wins message, also when a string is not
  a move at all.
\<close>

theorem determine_winner_total:
  "(a = b \<longrightarrow> determine_winner a b = ''It's a tie!'') \<and>
   (a \<noteq> b \<and> (a, b) \<notin> {(''rock'', ''scissors''), (''paper'', ''rock''), (''scissors'', ''paper'')}
      \<longrightarrow> determine_winner a b = ''You win!'')"
  by (simp add: determine_winner_def)

theorem determine_winner_total_witness:
  "determine_winner ''spock'' ''spock'' = ''It's a tie!'' \<and>
   ''lizard'' \<noteq> ''rock'' \<and>
   (''lizard'', ''rock'') \<notin> {(''rock'', ''scissors''), (''paper'', ''rock''), (''scissors'', ''paper'')} \<and>
   determine_winner ''lizard'' ''rock'' = ''You win!''"
  using determine_winner_total[of "''spock''" "''spock''"]
    determine_winner_total[of "''lizard''" "''rock''"]
  by simp

section \<open>The pose table and the gesture commit\<close>

text \<open>
  Claim C2. The pose lookup \<open>get_joint_values\<close> returns a pose for each of the four
  gestures and never raises the KeyError of the dictionary access; the poses are
  Reset (100, 0, 0), Rock (0, 0, 0), Paper (0, 1.57, 0), Scissors (100, 0, 1.57) for
  gripper, wrist yaw and wrist roll. It is a function of the gesture alone, so two
  lookups of one gesture agree.
\<close>

theorem get_joint_values_table:
  "get_joint_values RESET = Inr \<lparr>gripper = 100.0, wrist_yaw = 0.0, wrist_roll = 0.0\<rparr> \<and>
   get_joint_values ROCK = Inr \<lparr>gripper = 0.0, wrist_yaw = 0.0, wrist_roll = 0.0\<rparr> \<and>
   get_joint_values PAPER = Inr \<lparr>gripper = 0.0, wrist_yaw = 1.57, wrist_roll = 0.0\<rparr> \<and>
   get_joint_values SCISSORS = Inr \<lparr>gripper = 100.0, wrist_yaw = 0.0, wrist_roll = 1.57\<rparr> \<and>
   (\<forall>g. \<exists>jv. get_joint_values g = Inr jv)"
  using get_joint_values_total by (simp add: get_joint_values_def gestures_def)

text \<open>
  Claim C3. For every gesture, \<open>make_gesture\<close> issues the wrist yaw and the wrist roll
  target, commits both with one \<open>push_command\<close>, waits, and only then issues the gripper
  target, commits it and waits again. The calls a run makes are always an initial part of
  that sequence (so no gripper call precedes the wrist commit, whatever fails), the run
  returns normally exactly when none of the seven calls raises, and then it has made all
  of them.
\<close>

theorem make_gesture_wrist_before_gripper:
  assumes "wrist_yaw_joint s" "wrist_roll_joint s" "robot s"
  shows "\<exists>jv steps. get_joint_values g = Inr jv \<and>
     steps = [JointMoveTo ''wrist_yaw'' (wrist_yaw jv), JointMoveTo ''wrist_roll'' (wrist_roll jv),
              PushCommand, Sleep 1,
              JointMoveTo ''stretch_gripper'' (gripper jv), PushCommand, Sleep 1] \<and>
     (\<exists>issued. trace (snd (make_gesture w g s)) = trace s @ issued \<and> prefix issued steps) \<and>
     ((fst (make_gesture w g s) = Inr ()) = ok_events w (trace s) steps) \<and>
     (ok_events w (trace s) steps \<longrightarrow>
        make_gesture w g s = (Inr (), s\<lparr>trace := trace s @ steps\<rparr>))"
proof -
  obtain jv where jv: "get_joint_values g = Inr jv" using get_joint_values_total by blast
  show ?thesis
    using jv make_gesture_prefix[OF jv assms, of w] make_gesture_returns_iff[OF jv assms, of w]
      make_gesture_ok[OF jv assms, of w]
    by (simp add: gesture_events_def)
qed

theorem make_gesture_wrist_before_gripper_witness:
  "wrist_yaw_joint ready_state \<and> wrist_roll_joint ready_state \<and> robot ready_state \<and>
   make_gesture calm_world PAPER ready_state =
     (Inr (), ready_state\<lparr>trace :=
        [JointMoveTo ''wrist_yaw'' 1.57, JointMoveTo ''wrist_roll'' 0, PushCommand, Sleep 1,
         JointMoveTo ''stretch_gripper'' 0, PushCommand, Sleep 1]\<rparr>)"
  using make_gesture_wrist_before_gripper[of ready_state PAPER calm_world]
  by (simp add: ready_state_def calm_world_def get_joint_values_def gestures_def)

text \<open>
  Claim C9. Each lift bob reads the lift height at the start of the call, commands a
  relative move up by 0.1, and after the hold commands the lift back to exactly the height
  it read; nothing but the log of calls and of threads changes in the state. The calls
  of a bob depend on the word and on the height read only: two calls that start at the
  same height, wherever they stand in a sequence of calls, issue the same commands, the
  last lift command being the move back to that height.
\<close>

theorem move_arm_animation_restores_lift:
  assumes "robot s" "ok_events w (trace s) (bob_events word (lift_pos w (trace s)))"
  shows "(\<exists>t. move_arm_animation w word s =
       (Inr (), s\<lparr>trace := trace s @
                    [LiftMoveBy 0.1, PushCommand, ThreadStart word, Sleep 0.5,
                     LiftMoveTo (lift_pos w (trace s)), PushCommand, Sleep 0.5, ThreadJoin word],
                  threads := threads s @ [t]\<rparr>)) \<and>
     (\<forall>s'. robot s' \<and> lift_pos w (trace s') = lift_pos w (trace s) \<and>
           ok_events w (trace s') (bob_events word (lift_pos w (trace s'))) \<longrightarrow>
        drop (length (trace s')) (trace (snd (move_arm_animation w word s'))) =
        drop (length (trace s)) (trace (snd (move_arm_animation w word s))))"
proof -
  note m = move_arm_animation_ok[OF assms]
  have 1: "\<exists>t. move_arm_animation w word s =
       (Inr (), s\<lparr>trace := trace s @
                    [LiftMoveBy 0.1, PushCommand, ThreadStart word, Sleep 0.5,
                     LiftMoveTo (lift_pos w (trace s)), PushCommand, Sleep 0.5, ThreadJoin word],
                  threads := threads s @ [t]\<rparr>)"
    unfolding m bob_events_def by blast
  have 2: "drop (length (trace s')) (trace (snd (move_arm_animation w word s'))) =
        drop (length (trace s)) (trace (snd (move_arm_animation w word s)))"
    if "robot s'" "lift_pos w (trace s') = lift_pos w (trace s)"
       "ok_events w (trace s') (bob_events word (lift_pos w (trace s')))" for s'
    using that(2) by (simp add: m move_arm_animation_ok[OF that(1,3)])
  from 1 2 show ?thesis by blast
qed

theorem move_arm_animation_restores_lift_witness:
  "robot ready_state \<and>
   ok_events calm_world (trace ready_state) (bob_events ''Rock'' (lift_pos calm_world (trace ready_state))) \<and>
   trace (snd (move_arm_animation calm_world ''Rock'' ready_state)) =
     [LiftMoveBy 0.1, PushCommand, ThreadStart ''Rock'', Sleep 0.5,
      LiftMoveTo 0.5, PushCommand, Sleep 0.5, ThreadJoin ''Rock'']"
  using move_arm_animation_restores_lift[of ready_state calm_world "''Rock''"]
  by (auto simp add: calm_world_def ready_state_def bob_events_def)

section \<open>The round\<close>

text \<open>
  Claim C4. The countdown takes its words in the order supplied, each exactly once:
  for every list of words, a fault-free countdown makes, word after word, the echo of the
  word and the bob of the word, whose speech thread is started inside the bob and joined
  as its last call, so the join of one word precedes every call of the next. One speech
  thread per word has run, in the same order. In \<open>play_round\<close> the words are Rock, Paper,
  Scissors.
\<close>

theorem countdown_in_order:
  assumes "fault_free w" "robot s"
  shows "\<exists>hs. length hs = length words \<and>
     countdown w words s =
       (Inr (), s\<lparr>trace := trace s @
                    concat (map2 (\<lambda>word h.
                       [Echo (word @ ''...''), LiftMoveBy 0.1, PushCommand, ThreadStart word,
                        Sleep 0.5, LiftMoveTo h, PushCommand, Sleep 0.5, ThreadJoin word])
                      words hs),
                  threads := threads s @
                    map (\<lambda>word. ([Say word, Sleep (real (length word) * 0.1)], None)) words\<rparr>) \<and>
     filter thread_event (drop (length (trace s)) (trace (snd (countdown w words s)))) =
       concat (map (\<lambda>word. [ThreadStart word, ThreadJoin word]) words) \<and>
     (wrist_yaw_joint s \<longrightarrow> wrist_roll_joint s \<longrightarrow>
      filter thread_event (drop (length (trace s)) (trace (snd (play_round w s)))) =
        [ThreadStart ''Rock'', ThreadJoin ''Rock'', ThreadStart ''Paper'', ThreadJoin ''Paper'',
         ThreadStart ''Scissors'', ThreadJoin ''Scissors''])"
proof -
  let ?hs = "countdown_heights w (trace s) words"
  have len: "length ?hs = length words" by (rule length_countdown_heights)
  have we: "word_events = (\<lambda>word h.
                       [Echo (word @ ''...''), LiftMoveBy 0.1, PushCommand, ThreadStart word,
                        Sleep 0.5, LiftMoveTo h, PushCommand, Sleep 0.5, ThreadJoin word])"
    by (simp add: fun_eq_iff word_events_def bob_events_def)
  have se: "speak_events = (\<lambda>word. [Say word, Sleep (real (length word) * 0.1)])"
    by (simp add: fun_eq_iff speak_events_def)
  note c = countdown_ff[OF assms, of words]
  have 1: "countdown w words s =
       (Inr (), s\<lparr>trace := trace s @
                    concat (map2 (\<lambda>word h.
                       [Echo (word @ ''...''), LiftMoveBy 0.1, PushCommand, ThreadStart word,
                        Sleep 0.5, LiftMoveTo h, PushCommand, Sleep 0.5, ThreadJoin word])
                      words ?hs),
                  threads := threads s @
                    map (\<lambda>word. ([Say word, Sleep (real (length word) * 0.1)], None)) words\<rparr>)"
    using c unfolding we se .
  have 2: "filter thread_event (drop (length (trace s)) (trace (snd (countdown w words s)))) =
       concat (map (\<lambda>word. [ThreadStart word, ThreadJoin word]) words)"
    by (simp add: c filter_thread_words[OF len])
  have 3: "filter thread_event (drop (length (trace s)) (trace (snd (play_round w s)))) =
        [ThreadStart ''Rock'', ThreadJoin ''Rock'', ThreadStart ''Paper'', ThreadJoin ''Paper'',
         ThreadStart ''Scissors'', ThreadJoin ''Scissors'']"
    if "wrist_yaw_joint s" "wrist_roll_joint s"
    using play_round_ff[OF assms that]
    by (simp add: round_events_def round_heights_def speak_events_def gesture_events_def
        word_events_def bob_events_def Let_def)
  from len 1 2 3 show ?thesis by blast
qed

theorem countdown_in_order_witness:
  "fault_free calm_world \<and> robot ready_state \<and>
   filter thread_event (trace (snd (countdown calm_world [''Rock'', ''Paper'', ''Scissors''] ready_state))) =
     [ThreadStart ''Rock'', ThreadJoin ''Rock'', ThreadStart ''Paper'', ThreadJoin ''Paper'',
      ThreadStart ''Scissors'', ThreadJoin ''Scissors'']"
  using countdown_in_order[of calm_world ready_state "[''Rock'', ''Paper'', ''Scissors'']"]
  by (auto simp add: fault_free_def calm_world_def ready_state_def)

text \<open>
  Claim C5. In a round the move is drawn by the first call, one \<open>random.choice\<close> over
  the three distinct moves rock, paper, scissors, before the announcement and the
  countdown; no later call draws again, and the gesture made, the move announced and the
  move returned at the end are those of that draw. The selection is uniform: with the
  generator drawing each index below three with probability one third, the round returns
  each of rock, paper and scissors with probability exactly one third, and anything else
  with probability zero.
\<close>

theorem play_round_move_fixed:
  assumes "fault_free w" "robot s" "wrist_yaw_joint s" "wrist_roll_joint s"
  shows "(\<forall>m \<in> set valid_moves. move_probability w s m = 1 / 3) \<and>
     (\<forall>m. m \<notin> set valid_moves \<longrightarrow> move_probability w s m = 0) \<and>
     (\<exists>mv g jv theatrics.
     mv = valid_moves ! (randbelow w (trace s @ [RandomChoice valid_moves]) mod length valid_moves) \<and>
     distinct valid_moves \<and> length valid_moves = 3 \<and>
     (mv, g) \<in> {(''rock'', ROCK), (''paper'', PAPER), (''scissors'', SCISSORS)} \<and>
     Guestures_by_name (upper mv) = Inr g \<and> get_joint_values g = Inr jv \<and>
     fst (play_round w s) = Inr mv \<and>
     trace (snd (play_round w s)) =
       trace s @ [RandomChoice valid_moves] @ theatrics @
       gesture_events jv @
       [Echo (''stretch played: '' @ mv @ newline), Say (''I choose '' @ mv),
        Sleep (real (length (''I choose '' @ mv)) * 0.1)] \<and>
     hd theatrics = Say ''Let's play!'' \<and>
     (\<forall>seq. RandomChoice seq \<notin> set theatrics))"
proof -
  let ?mv = "round_move w (trace s)"
  let ?hs = "round_heights w (trace s)"
  let ?th = "speak_events ''Let's play!'' @
     [Echo (newline @ ''Get ready...'' @ newline), Sleep 1] @
     concat (map2 word_events [''Rock'', ''Paper'', ''Scissors''] ?hs) @
     speak_events ''Shoot!'' @ [Echo (''Shoot!'' @ newline @ newline)]"
  from round_move_pose obtain g where
    g: "Guestures_by_name (upper ?mv) = Inr g" "get_joint_values g = Inr (move_pose ?mv)"
      "(?mv, g) \<in> {(''rock'', ROCK), (''paper'', PAPER), (''scissors'', SCISSORS)}"
    by blast
  note p = play_round_ff[OF assms]
  have 1: "?mv = valid_moves ! (randbelow w (trace s @ [RandomChoice valid_moves]) mod length valid_moves)"
    by (simp add: round_move_def)
  have 2: "distinct valid_moves" "length valid_moves = 3" by (simp_all add: valid_moves_def)
  have 3: "fst (play_round w s) = Inr ?mv" by (simp add: p)
  have 4: "trace (snd (play_round w s)) =
       trace s @ [RandomChoice valid_moves] @ ?th @
       gesture_events (move_pose ?mv) @
       [Echo (''stretch played: '' @ ?mv @ newline), Say (''I choose '' @ ?mv),
        Sleep (real (length (''I choose '' @ ?mv)) * 0.1)]"
    by (simp add: p round_events_def speak_events_def)
  have 5: "hd ?th = Say ''Let's play!''" by (simp add: speak_events_def)
  have 6: "\<forall>seq. RandomChoice seq \<notin> set ?th"
    by (auto simp add: speak_events_def word_events_def bob_events_def)
  have 7: "\<forall>m \<in> set valid_moves. move_probability w s m = 1 / 3"
    by (simp add: move_probability_ff[OF assms] valid_moves_def)
  have 8: "\<forall>m. m \<notin> set valid_moves \<longrightarrow> move_probability w s m = 0"
    by (simp add: move_probability_ff[OF assms] valid_moves_def)
  from 1 2 g 3 4 5 6 have "\<exists>mv g jv theatrics.
     mv = valid_moves ! (randbelow w (trace s @ [RandomChoice valid_moves]) mod length valid_moves) \<and>
     distinct valid_moves \<and> length valid_moves = 3 \<and>
     (mv, g) \<in> {(''rock'', ROCK), (''paper'', PAPER), (''scissors'', SCISSORS)} \<and>
     Guestures_by_name (upper mv) = Inr g \<and> get_joint_values g = Inr jv \<and>
     fst (play_round w s) = Inr mv \<and>
     trace (snd (play_round w s)) =
       trace s @ [RandomChoice valid_moves] @ theatrics @
       gesture_events jv @
       [Echo (''stretch played: '' @ mv @ newline), Say (''I choose '' @ mv),
        Sleep (real (length (''I choose '' @ mv)) * 0.1)] \<and>
     hd theatrics = Say ''Let's play!'' \<and>
     (\<forall>seq. RandomChoice seq \<notin> set theatrics)"
    by blast
  with 7 8 show ?thesis by blast
qed

theorem play_round_move_fixed_witness:
  "fault_free calm_world \<and> robot ready_state \<and> wrist_yaw_joint ready_state \<and>
   wrist_roll_joint ready_state \<and>
   fst (play_round calm_world ready_state) = Inr ''paper'' \<and>
   move_probability calm_world ready_state ''rock'' = 1 / 3 \<and>
   move_probability calm_world ready_state ''paper'' = 1 / 3 \<and>
   move_probability calm_world ready_state ''scissors'' = 1 / 3 \<and>
   move_probability calm_world ready_state ''lizard'' = 0"
  using play_round_move_fixed[of calm_world ready_state]
  by (auto simp add: fault_free_def calm_world_def ready_state_def valid_moves_def)

section \<open>The session\<close>

text \<open>
  Claim C6. A session without faults and interrupts, whatever the number of rounds,
  returns normally and performs exactly that many cycles (none when the number is below
  one): its trace is the start-up, one cycle per round number from 1 on, the closing
  words, and the teardown. Every cycle begins by moving the lift to 0.5, committing,
  waiting for the command and committing the Reset gesture; the draw and the announcement
  of the round come after, and \<open>wait_command\<close> is called once per cycle.
\<close>

theorem play_cycles:
  assumes "fault_free w" "\<forall>tr. startup_ok w tr"
  shows "fst (play w rounds init_state) = Inr () \<and>
    (\<exists>xs. length xs = nat rounds \<and>
       trace (snd (play w rounds init_state)) =
         game_events @ robot_events @
         speak_events ''Hello! I'm ready to play Rock Paper Scissors!'' @
         concat (map2 (cycle_events rounds) [1..rounds] xs) @
         (if rounds > 1 then speak_events ''Thanks for playing!'' else []) @
         teardown_events) \<and>
    count_list (trace (snd (play w rounds init_state))) WaitCommand = nat rounds \<and>
    (\<forall>n x. \<exists>rest. cycle_events rounds n x =
        [LiftMoveTo 0.5, PushCommand, WaitCommand,
         JointMoveTo ''wrist_yaw'' 0, JointMoveTo ''wrist_roll'' 0, PushCommand, Sleep 1,
         JointMoveTo ''stretch_gripper'' 100, PushCommand, Sleep 1] @ rest \<and>
        WaitCommand \<notin> set rest \<and>
        RandomChoice valid_moves \<in> set rest \<and> Say ''Let's play!'' \<in> set rest)"
proof -
  let ?tr0 = "game_events @ robot_events @
         speak_events ''Hello! I'm ready to play Rock Paper Scissors!''"
  let ?xs = "session_data w rounds ?tr0 [1..rounds]"
  note p = play_ff[OF assms, of rounds]
  have len: "length ?xs = nat rounds" by (simp add: length_session_data)
  have 1: "fst (play w rounds init_state) = Inr ()" by (simp add: p)
  have 2: "trace (snd (play w rounds init_state)) =
         game_events @ robot_events @
         speak_events ''Hello! I'm ready to play Rock Paper Scissors!'' @
         concat (map2 (cycle_events rounds) [1..rounds] ?xs) @
         (if rounds > 1 then speak_events ''Thanks for playing!'' else []) @
         teardown_events"
    by (simp add: p)
  have 3: "count_list (trace (snd (play w rounds init_state))) WaitCommand = nat rounds"
    unfolding 2
    by (simp add: count_wait_cycles[OF length_session_data] game_events_def robot_events_def
        speak_events_def teardown_events_def)
  have 4: "\<exists>rest. cycle_events rounds n x =
        [LiftMoveTo 0.5, PushCommand, WaitCommand,
         JointMoveTo ''wrist_yaw'' 0, JointMoveTo ''wrist_roll'' 0, PushCommand, Sleep 1,
         JointMoveTo ''stretch_gripper'' 100, PushCommand, Sleep 1] @ rest \<and>
        WaitCommand \<notin> set rest \<and>
        RandomChoice valid_moves \<in> set rest \<and> Say ''Let's play!'' \<in> set rest" for n x
  proof -
    obtain mv jv hs pc where x: "x = (mv, jv, hs, pc)" by (cases x) auto
    show ?thesis
      by (auto simp add: x cycle_events_def reset_events_def round_events_def gesture_events_def
          speak_events_def word_events_def bob_events_def)
  qed
  from len 1 2 3 4 show ?thesis by blast
qed

theorem play_cycles_witness:
  "fault_free calm_world \<and> (\<forall>tr. startup_ok calm_world tr) \<and>
   fst (play calm_world 2 init_state) = Inr () \<and>
   count_list (trace (snd (play calm_world 2 init_state))) WaitCommand = 2"
  using play_cycles[of calm_world 2]
  by (simp add: fault_free_def calm_world_def)

section \<open>Failures: teardown and speech\<close>

text \<open>
  Claim C7, counterexample. Teardown is not invoked on every exit path of \<open>play\<close>: the
  speech process is started and the game object built before the \<open>try\<close> block is
  entered. When the user interrupts the two seconds' sleep that follows \<open>Popen\<close>, the
  command ends with KeyboardInterrupt after these two calls, and none of
  \<open>robot.stop\<close>, \<open>rclpy.shutdown\<close>, \<open>getpgid\<close>, \<open>killpg\<close> is made: the speech
  process is left running.
\<close>

theorem cancelled_before_try:
  "play cancel_world 1 init_state =
     (Inl KeyboardInterrupt,
      init_state\<lparr>trace := [Popen [''ros2'', ''run'', ''sound_play'', ''soundplay_node.py''], Sleep 2]\<rparr>) \<and>
   \<not> list_ex is_teardown (trace (snd (play cancel_world 1 init_state)))"
  by (simp add: play_def bnd_def act_def cancel_world_def calm_world_def init_state_def
      is_teardown_def teardown_events_def)

text \<open>
  Claim C7, amended. Once the start-up of \<open>play\<close> has returned and the robot object
  is constructed (the \<open>try\<close> block is entered and \<open>Robot()\<close> has returned), teardown
  is invoked exactly once on every exit path, whatever call fails or is interrupted after
  that, in any round. The calls of the run are: the start-up, the session body, the
  farewell of the exception handler (only echo, say and sleep), then teardown. No call of
  the body but its last one raised, so a fault ends the body at once and the remaining
  rounds are not played. No teardown call is made before the end; there \<open>robot.stop\<close>
  is called exactly once, followed in this order by \<open>rclpy.shutdown\<close>, \<open>getpgid\<close>
  and \<open>killpg\<close>, each made exactly once, up to the first of them that raises: all four
  are made exactly when the first three return.
\<close>

theorem teardown_once:
  assumes "ok_events w [] (game_events @ [RobotCreate])"
  shows "\<exists>body farewell fin.
     trace (snd (play w rounds init_state)) = game_events @ RobotCreate # body @ farewell @ fin \<and>
     ok_events w (game_events @ [RobotCreate]) (butlast body) \<and>
     list_all (\<lambda>e. \<not> is_teardown e) (game_events @ RobotCreate # body @ farewell) \<and>
     list_all is_farewell farewell \<and>
     fin \<noteq> [] \<and> prefix fin teardown_events \<and>
     (fin = teardown_events) =
        ok_events w (game_events @ RobotCreate # body @ farewell) [RobotStop, RclpyShutdown, Getpgid] \<and>
     count_list (trace (snd (play w rounds init_state))) RobotStop = 1 \<and>
     (\<forall>e. is_teardown e \<longrightarrow>
        count_list (trace (snd (play w rounds init_state))) e = (if e \<in> set fin then 1 else 0))"
proof -
  let ?s0 = "init_state\<lparr>trace := game_events\<rparr>"
  let ?c = "try_except (session w rounds) (handlers w)"
  from assms have g: "ok_events w [] game_events" and rc: "faults w (trace ?s0) RobotCreate = None"
    by (simp_all add: ok_events_append)
  from session_emits[OF rc, of rounds] obtain body where
    b: "trace (snd (session w rounds ?s0)) = game_events @ RobotCreate # body"
       "list_all (\<lambda>e. \<not> is_teardown e) body" "robot (snd (session w rounds ?s0))"
       "ok_events w (game_events @ [RobotCreate])
          (case fst (session w rounds ?s0) of Inr _ \<Rightarrow> body | Inl _ \<Rightarrow> butlast body)"
    by auto
  have okb: "ok_events w (game_events @ [RobotCreate]) (butlast body)"
    using b(4) by (cases "fst (session w rounds ?s0)") (simp_all add: ok_events_butlast)
  from try_except_handlers[of "session w rounds" w ?s0] b obtain farewell where
    f: "trace (snd (?c ?s0)) = game_events @ RobotCreate # body @ farewell"
       "list_all is_farewell farewell" "robot (snd (?c ?s0))"
    by auto
  from teardown_trace[OF f(3), of w] obtain fin where
    t: "trace (snd (teardown w (snd (?c ?s0)))) = trace (snd (?c ?s0)) @ fin"
       "prefix fin teardown_events" "fin \<noteq> []"
       "(fin = teardown_events) = ok_events w (trace (snd (?c ?s0))) [RobotStop, RclpyShutdown, Getpgid]"
    by blast
  have tr: "trace (snd (play w rounds init_state)) = game_events @ RobotCreate # body @ farewell @ fin"
    by (simp add: play_started[OF g] snd_try_finally t(1) f(1))
  have fnt: "list_all (\<lambda>e. \<not> is_teardown e) farewell"
    using f(2) by (induction farewell) (simp_all add: farewell_not_teardown)
  have quiet: "list_all (\<lambda>e. \<not> is_teardown e) (game_events @ RobotCreate # body @ farewell)"
    using b(2) fnt game_events_not_teardown by (simp add: not_teardown)
  have cnt: "\<And>e. is_teardown e \<Longrightarrow>
     count_list (trace (snd (play w rounds init_state))) e = (if e \<in> set fin then 1 else 0)"
  proof -
    fix e assume e: "is_teardown e"
    have "count_list (game_events @ RobotCreate # body @ farewell) e = 0"
      using count_list_none[OF quiet, of e] e by simp
    moreover have "count_list fin e = (if e \<in> set fin then 1 else 0)"
      by (rule count_list_distinct[OF distinct_teardown_prefix[OF t(2)]])
    ultimately show "count_list (trace (snd (play w rounds init_state))) e = (if e \<in> set fin then 1 else 0)"
      unfolding tr using count_list_append[of "game_events @ RobotCreate # body @ farewell" fin e]
      by simp
  qed
  have stop: "RobotStop \<in> set fin"
    using t(2) t(3) by (cases fin) (auto simp: teardown_events_def)
  have one: "count_list (trace (snd (play w rounds init_state))) RobotStop = 1"
    using cnt[of RobotStop] stop by (simp add: is_teardown_def teardown_events_def)
  show ?thesis
    using tr okb quiet f(2) t(2) t(3) t(4)[unfolded f(1)] one cnt by blast
qed

theorem teardown_once_witness:
  "ok_events jammed_world [] (game_events @ [RobotCreate]) \<and>
   count_list (trace (snd (play jammed_world 2 init_state))) RobotStop = 1 \<and>
   count_list (trace (snd (play jammed_world 2 init_state))) RclpyShutdown = 1 \<and>
   count_list (trace (snd (play jammed_world 2 init_state))) Getpgid = 1 \<and>
   count_list (trace (snd (play jammed_world 2 init_state))) Killpg = 1"
proof -
  have h: "ok_events jammed_world [] (game_events @ [RobotCreate])"
    by (simp add: jammed_world_def calm_world_def game_events_def)
  have ok: "\<And>tr. ok_events jammed_world tr [RobotStop, RclpyShutdown, Getpgid]"
    by (simp add: jammed_world_def calm_world_def)
  from teardown_once[OF h, of 2] obtain body farewell fin where
    eq: "(fin = teardown_events) =
        ok_events jammed_world (game_events @ RobotCreate # body @ farewell)
          [RobotStop, RclpyShutdown, Getpgid]"
    and cnt: "\<forall>e. is_teardown e \<longrightarrow>
        count_list (trace (snd (play jammed_world 2 init_state))) e = (if e \<in> set fin then 1 else 0)"
    by (elim exE conjE)
  have fin: "fin = teardown_events" unfolding eq by (rule ok)
  have td: "is_teardown RobotStop" "is_teardown RclpyShutdown" "is_teardown Getpgid"
    "is_teardown Killpg"
    by (simp_all add: is_teardown_def teardown_events_def)
  from cnt td have
    "count_list (trace (snd (play jammed_world 2 init_state))) RobotStop = (if RobotStop \<in> set fin then 1 else 0)"
    "count_list (trace (snd (play jammed_world 2 init_state))) RclpyShutdown = (if RclpyShutdown \<in> set fin then 1 else 0)"
    "count_list (trace (snd (play jammed_world 2 init_state))) Getpgid = (if Getpgid \<in> set fin then 1 else 0)"
    "count_list (trace (snd (play jammed_world 2 init_state))) Killpg = (if Killpg \<in> set fin then 1 else 0)"
    by blast+
  then show ?thesis using h by (simp add: fin teardown_events_def)
qed

text \<open>
  Claim C8, counterexample. \<open>speak\<close> does not absorb a failure of the speech
  collaborator. With every \<open>say\<close> raising, a round of an initialised robot draws its
  move, calls \<open>say\<close> for the opening line and ends there with that exception: no
  countdown, no gesture, no announcement.
\<close>

theorem speech_failure_aborts:
  "play_round mute_world ready_state =
     (Inl (Fault ''speech''),
      ready_state\<lparr>trace := [RandomChoice valid_moves, Say ''Let's play!'']\<rparr>)"
  by (simp add: play_round_def random_choice_def speak_def bnd_def act_def mute_world_def
      calm_world_def ready_state_def valid_moves_def)

text \<open>
  Claim C8, amended. \<open>speak\<close> has no failure handling: when \<open>say\<close> raises, \<open>speak\<close>
  ends with that exception right after the call. On the main thread this aborts the
  enclosing round: a \<open>say\<close> of a round that raises is the last call of the round, and
  the round ends with an exception; for the opening line the round ends with the very
  exception of \<open>say\<close> after the draw and that one call. Only the words of the countdown
  are spoken in a thread of their own: there the exception ends the thread and stays in
  it, and the lift bob of that word still returns normally.
\<close>

theorem speak_failure_propagates:
  "(faults w (trace s) (Say utterance) = Some x \<longrightarrow>
      speak w utterance s = (Inl x, s\<lparr>trace := trace s @ [Say utterance]\<rparr>)) \<and>
   (trace (snd (play_round w s)) = trace s @ pre @ Say t # post \<and>
    faults w (trace s @ pre) (Say t) = Some y \<longrightarrow>
      post = [] \<and> (\<exists>z. fst (play_round w s) = Inl z)) \<and>
   (faults w (trace s) (RandomChoice valid_moves) = None \<and>
    faults w (trace s @ [RandomChoice valid_moves]) (Say ''Let's play!'') = Some x \<longrightarrow>
      play_round w s =
        (Inl x, s\<lparr>trace := trace s @ [RandomChoice valid_moves, Say ''Let's play!'']\<rparr>)) \<and>
   (robot s \<and> ok_events w (trace s) (bob_events word (lift_pos w (trace s))) \<and>
    faults w [] (Say word) = Some x \<longrightarrow>
      fst (move_arm_animation w word s) = Inr () \<and>
      threads (snd (move_arm_animation w word s)) = threads s @ [([Say word], Some x)])"
proof (intro conjI impI)
  assume "faults w (trace s) (Say utterance) = Some x"
  then show "speak w utterance s = (Inl x, s\<lparr>trace := trace s @ [Say utterance]\<rparr>)"
    by (rule speak_raises)
next
  assume a: "trace (snd (play_round w s)) = trace s @ pre @ Say t # post \<and>
    faults w (trace s @ pre) (Say t) = Some y"
  from failing_call_is_last[OF emits_play_round conjunct1[OF a] conjunct2[OF a]]
  show "post = []" "\<exists>z. fst (play_round w s) = Inl z" by simp_all
next
  assume "faults w (trace s) (RandomChoice valid_moves) = None \<and>
    faults w (trace s @ [RandomChoice valid_moves]) (Say ''Let's play!'') = Some x"
  then show "play_round w s =
        (Inl x, s\<lparr>trace := trace s @ [RandomChoice valid_moves, Say ''Let's play!'']\<rparr>)"
    by (simp add: play_round_first_say)
next
  assume a: "robot s \<and> ok_events w (trace s) (bob_events word (lift_pos w (trace s))) \<and>
    faults w [] (Say word) = Some x"
  then have m: "move_arm_animation w word s =
     (Inr (), s\<lparr>trace := trace s @ bob_events word (lift_pos w (trace s)),
                threads := threads s @ [([Say word], Some x)]\<rparr>)"
    by (simp add: move_arm_animation_ok run_thread_raises)
  show "fst (move_arm_animation w word s) = Inr ()" by (simp add: m)
  show "threads (snd (move_arm_animation w word s)) = threads s @ [([Say word], Some x)]"
    by (simp add: m)
qed

theorem speak_failure_propagates_witness:
  "speak mute_world ''Shoot!'' ready_state =
     (Inl (Fault ''speech''), ready_state\<lparr>trace := [Say ''Shoot!'']\<rparr>) \<and>
   play_round mute_world ready_state =
     (Inl (Fault ''speech''),
      ready_state\<lparr>trace := [RandomChoice valid_moves, Say ''Let's play!'']\<rparr>) \<and>
   fst (move_arm_animation mute_world ''Rock'' ready_state) = Inr () \<and>
   threads (snd (move_arm_animation mute_world ''Rock'' ready_state)) =
     [([Say ''Rock''], Some (Fault ''speech''))]"
  using speak_failure_propagates[where w = mute_world and s = ready_state and utterance = "''Shoot!''"
      and x = "Fault ''speech''" and word = "''Rock''"]
  by (simp add: mute_world_def calm_world_def ready_state_def bob_events_def)

end
